theory Spec2Isabelle
  imports Main "HOL-Library.AList" "HOL-Library.Sublist" "HOL-Library.Word"
begin

section \<open>Outpoint identity\<close>

text \<open>
  An outpoint is the object \<^verbatim>\<open>{ txid: string; vout: number }\<close>. The output index is a
  non-negative integer; it is modelled as a natural number, and the template literal
  \<^verbatim>\<open>${outpoint.vout}\<close> as its decimal rendering (what JavaScript prints for every
  integer below \<open>10\<^sup>2\<^sup>1\<close>).
\<close>

record outpoint =
  txid :: string
  vout :: nat

definition digitChar :: "nat \<Rightarrow> char" where
  "digitChar d = ''0123456789'' ! d"

function numberToString :: "nat \<Rightarrow> string" where
  "numberToString n =
     (if n < 10 then [digitChar n]
      else numberToString (n div 10) @ [digitChar (n mod 10)])"
  by pat_completeness auto
termination
  by (relation "measure (\<lambda>n. n)") auto

declare numberToString.simps [simp del]

text \<open>\<^verbatim>\<open>toStringOutpoint\<close> of \<^verbatim>\<open>utils/utxos.ts\<close>; it accepts every object that
  has the two fields, hence the record scheme.\<close>

definition toStringOutpoint :: "'a outpoint_scheme \<Rightarrow> string" where
  "toStringOutpoint outpoint = txid outpoint @ '':'' @ numberToString (vout outpoint)"

definition isHexChar :: "char \<Rightarrow> bool" where
  "isHexChar c = (c \<in> set ''0123456789abcdefABCDEF'')"

text \<open>The value domain of transaction ids: 64 hexadecimal characters.\<close>

definition isTxid :: "string \<Rightarrow> bool" where
  "isTxid s = (length s = 64 \<and> list_all isHexChar s)"


section \<open>Unspent outputs and JavaScript values\<close>

text \<open>
  \<^verbatim>\<open>UtxoInterface\<close>: the outpoint, the asset and value (both \<^verbatim>\<open>undefined\<close>, here
  \<open>None\<close>, while the output is blinded) and the previous output.
\<close>

record utxo = outpoint +
  asset :: "string option"
  "value" :: "nat option"
  prevout :: "string option"

text \<open>JavaScript truthiness of an optional string and of an optional number: \<^verbatim>\<open>undefined\<close>,
  the empty string and \<^verbatim>\<open>0\<close> are falsy.\<close>

definition truthyString :: "string option \<Rightarrow> bool" where
  "truthyString s = (case s of None \<Rightarrow> False | Some x \<Rightarrow> x \<noteq> [])"

definition truthyNumber :: "nat option \<Rightarrow> bool" where
  "truthyNumber n = (case n of None \<Rightarrow> False | Some x \<Rightarrow> x \<noteq> 0)"

text \<open>What a template literal prints for the two kinds of value.\<close>

definition showString :: "string option \<Rightarrow> string" where
  "showString s = (case s of None \<Rightarrow> ''undefined'' | Some x \<Rightarrow> x)"

definition showNumber :: "nat option \<Rightarrow> string" where
  "showNumber n = (case n of None \<Rightarrow> ''undefined'' | Some x \<Rightarrow> numberToString x)"


section \<open>Wallet thunks (actions/wallet.ts)\<close>

text \<open>
  \<^verbatim>\<open>Map<Outpoint, UtxoInterface>\<close> compares its keys by object identity and iterates in
  insertion order: it is a list of entries, in which two entries may carry equal outpoints.
\<close>

type_synonym utxoMap = "(outpoint \<times> utxo) list"

record wallet =
  masterXPub :: string
  masterBlindingKey :: string
  encryptedMnemonic :: "string option"
  passwordHash :: string
  confidentialAddresses :: "string list"
  utxoMap :: utxoMap

record appState =
  network :: string
  wallets :: "wallet list"

datatype actionType =
    INIT_WALLET
  | WALLET_CREATE_FAILURE
  | WALLET_CREATE_SUCCESS
  | WALLET_DERIVE_ADDRESS_FAILURE
  | WALLET_DERIVE_ADDRESS_SUCCESS
  | WALLET_RESTORE_FAILURE
  | WALLET_RESTORE_SUCCESS
  | WALLET_SET_UTXOS_FAILURE
  | WALLET_SET_UTXOS_SUCCESS
  | WALLET_GET_ALL_BALANCES_SUCCESS
  | WALLET_GET_ALL_BALANCES_FAILURE

datatype payload =
    NoPayload
  | ErrorPayload string
  | WalletPayload wallet
  | UtxoMapPayload utxoMap

text \<open>
  What a thunk does to the outside, in order: actions dispatched to the store, calls of the
  wallet repository, and calls of the two continuations it was given.
\<close>

datatype effect =
    Dispatch actionType payload
  | RepoGetOrCreateWallet wallet
  | RepoSetUtxos utxoMap
  | OnSuccess
  | OnSuccessBalances "(string \<times> nat) list"
  | OnError string

text \<open>
  The outcome of running a thunk: the effects it performed, and the error it raised to its
  caller (for an \<^verbatim>\<open>async\<close> thunk, the rejection of the promise it returns), if any.
\<close>

type_synonym outcome = "effect list \<times> string option"

text \<open>
  The collaborators of the wallet thunks, which are not part of this repository's logic:
  the identity library (key derivation, restoration, explorer fetch, unblinding), the
  encryption helpers and the repository. A result \<open>Inl e\<close>, or \<open>Some e\<close> for a repository
  call, is the exception \<open>e\<close> thrown by the collaborator.
\<close>

record walletEnv =
  newMnemonic :: "string \<Rightarrow> string \<Rightarrow> string + (string \<times> string)"
  restoreMnemonic :: "string \<Rightarrow> string \<Rightarrow> string + (string \<times> string \<times> bool \<times> string list)"
  encrypt :: "string \<Rightarrow> string \<Rightarrow> string"
  hashPassword :: "string \<Rightarrow> string"
  repoGetOrCreateWallet :: "wallet \<Rightarrow> string option"
  repoSetUtxos :: "utxoMap \<Rightarrow> string option"
  fetchUtxos :: "string \<Rightarrow> string + utxo list"
  unblindUtxo :: "utxo \<Rightarrow> string \<Rightarrow> (string \<times> nat) option"

definition walletExists :: "appState \<Rightarrow> bool" where
  "walletExists st =
     (case wallets st of [] \<Rightarrow> False | w # _ \<Rightarrow> truthyString (encryptedMnemonic w))"

definition alreadyExistsMessage :: string where
  "alreadyExistsMessage =
     ''Wallet already exists. Remove the extension from the browser first to create a new one''"

definition createWallet :: "walletEnv \<Rightarrow> string \<Rightarrow> string \<Rightarrow> appState \<Rightarrow> outcome" where
  "createWallet env password mnemonic st =
     (if walletExists st then ([], Some alreadyExistsMessage)
      else
        (case newMnemonic env (network st) mnemonic of
           Inl error \<Rightarrow>
             ([Dispatch WALLET_CREATE_FAILURE (ErrorPayload error), OnError error], None)
         | Inr (xpub, blindingKey) \<Rightarrow>
             let w = \<lparr>masterXPub = xpub, masterBlindingKey = blindingKey,
                      encryptedMnemonic = Some (encrypt env mnemonic password),
                      passwordHash = hashPassword env password,
                      confidentialAddresses = [], utxoMap = []\<rparr>
             in (case repoGetOrCreateWallet env w of
                   Some error \<Rightarrow>
                     ([RepoGetOrCreateWallet w,
                       Dispatch WALLET_CREATE_FAILURE (ErrorPayload error), OnError error], None)
                 | None \<Rightarrow>
                     ([RepoGetOrCreateWallet w,
                       Dispatch WALLET_CREATE_SUCCESS (WalletPayload w), OnSuccess], None))))"


text \<open>The repository calls among the effects of a thunk.\<close>

fun isRepoWrite :: "effect \<Rightarrow> bool" where
  "isRepoWrite (RepoGetOrCreateWallet _) = True"
| "isRepoWrite (RepoSetUtxos _) = True"
| "isRepoWrite _ = False"


subsection \<open>Balances\<close>

definition missingInfoMessage :: "utxo \<Rightarrow> string" where
  "missingInfoMessage cur =
     ''Missing utxo info. Asset: '' @ showString (asset cur) @
     '', Value: '' @ showNumber (value cur)"

text \<open>
  The callback of \<^verbatim>\<open>reduce\<close> in \<^verbatim>\<open>getAllBalances\<close>. The accumulator is the object
  \<^verbatim>\<open>{ [assetHash]: number }\<close>, an association list with one entry per key; the effects the
  callback performs are collected beside it.
\<close>

fun balancesReducer ::
  "(string \<times> nat) list \<times> effect list \<Rightarrow> utxo \<Rightarrow> (string \<times> nat) list \<times> effect list" where
  "balancesReducer (acc, log) cur =
     (if \<not> truthyString (asset cur) \<or> \<not> truthyNumber (value cur) then
        (acc, log @ [Dispatch WALLET_GET_ALL_BALANCES_FAILURE NoPayload,
                     OnError (missingInfoMessage cur)])
      else
        (case (asset cur, value cur) of
           (Some a, Some v) \<Rightarrow> (AList.update a v acc, log)
         | _ \<Rightarrow> (acc, log)))"

definition getAllBalances :: "appState \<Rightarrow> outcome" where
  "getAllBalances st =
     (case wallets st of
        [] \<Rightarrow> ([], Some ''TypeError'')
      | w # _ \<Rightarrow>
          (case foldl balancesReducer ([], []) (map snd (utxoMap w)) of
             (balances, log) \<Rightarrow>
               (log @ [Dispatch WALLET_GET_ALL_BALANCES_SUCCESS NoPayload,
                       OnSuccessBalances balances], None)))"

text \<open>The balances handed to \<^verbatim>\<open>onSuccess\<close>, the last call of the thunk, and the
  messages handed to \<^verbatim>\<open>onError\<close>.\<close>

definition reportedBalances :: "outcome \<Rightarrow> (string \<times> nat) list option" where
  "reportedBalances out =
     (if fst out = [] then None
      else (case last (fst out) of OnSuccessBalances b \<Rightarrow> Some b | _ \<Rightarrow> None))"

fun errorMessages :: "effect list \<Rightarrow> string list" where
  "errorMessages [] = []"
| "errorMessages (OnError m # es) = m # errorMessages es"
| "errorMessages (_ # es) = errorMessages es"

text \<open>A failure signal names an outpoint when one of its messages contains the txid.\<close>

definition namesOutpoint :: "outcome \<Rightarrow> outpoint \<Rightarrow> bool" where
  "namesOutpoint out p = list_ex (\<lambda>m. sublist (txid p) m) (errorMessages (fst out))"

text \<open>
  The balance view as the specification words it: for an asset, the sum of the values of
  all unblinded outputs carrying it.
\<close>

definition summedBalance :: "utxo list \<Rightarrow> string \<Rightarrow> nat" where
  "summedBalance us a =
     sum_list (map (\<lambda>u. case value u of Some v \<Rightarrow> v | None \<Rightarrow> 0)
                   (filter (\<lambda>u. asset u = Some a \<and> value u \<noteq> None) us))"


subsection \<open>Refreshing the stored outputs\<close>

text \<open>The loop of \<^verbatim>\<open>compareUtxos\<close> over the keys of the store, with its early return.\<close>

fun compareKeys :: "outpoint list \<Rightarrow> utxo list \<Rightarrow> bool" where
  "compareKeys [] fetchedUtxos = True"
| "compareKeys (outpoint # keys) fetchedUtxos =
     (let isEqual = list_ex (\<lambda>utxo. txid utxo = txid outpoint \<and> vout utxo = vout outpoint)
                            fetchedUtxos
      in if \<not> isEqual then False else compareKeys keys fetchedUtxos)"

definition compareUtxos :: "utxoMap \<Rightarrow> utxo list \<Rightarrow> bool" where
  "compareUtxos utxoMapStore fetchedUtxos =
     (if length utxoMapStore \<noteq> length fetchedUtxos then False
      else compareKeys (map fst utxoMapStore) fetchedUtxos)"

record addressInterface =
  confidentialAddress :: string
  blindingPrivateKey :: string

text \<open>\<^verbatim>\<open>Promise.all\<close> over the addresses: the first failing fetch rejects the whole.\<close>

fun fetchAllUtxos ::
  "walletEnv \<Rightarrow> addressInterface list \<Rightarrow> string + (utxo list \<times> string) list" where
  "fetchAllUtxos env [] = Inr []"
| "fetchAllUtxos env (o' # os) =
     (case fetchUtxos env (confidentialAddress o') of
        Inl error \<Rightarrow> Inl error
      | Inr utxos \<Rightarrow>
          (case fetchAllUtxos env os of
             Inl error \<Rightarrow> Inl error
           | Inr rest \<Rightarrow> Inr ((utxos, blindingPrivateKey o') # rest)))"

text \<open>The library's \<^verbatim>\<open>tryToUnblindUtxo\<close>: the output with its asset and value filled in,
  or the output as it was when unblinding fails.\<close>

definition tryToUnblindUtxo :: "walletEnv \<Rightarrow> utxo \<Rightarrow> string \<Rightarrow> utxo" where
  "tryToUnblindUtxo env u key =
     (case unblindUtxo env u key of
        None \<Rightarrow> u
      | Some (a, v) \<Rightarrow> u\<lparr>asset := Some a, value := Some v\<rparr>)"

definition toOutpoint :: "utxo \<Rightarrow> outpoint" where
  "toOutpoint u = \<lparr>txid = txid u, vout = vout u\<rparr>"

definition setUtxos :: "walletEnv \<Rightarrow> addressInterface list \<Rightarrow> appState \<Rightarrow> outcome" where
  "setUtxos env addressesWithBlindingKeys st =
     (case fetchAllUtxos env addressesWithBlindingKeys of
        Inl error \<Rightarrow>
          ([Dispatch WALLET_SET_UTXOS_FAILURE (ErrorPayload error), OnError error], None)
      | Inr fetched \<Rightarrow>
          let allUtxos = foldl (\<lambda>acc cur. acc @ fst cur) [] fetched
          in (case wallets st of
                [] \<Rightarrow>
                  ([Dispatch WALLET_SET_UTXOS_FAILURE (ErrorPayload ''TypeError''),
                    OnError ''TypeError''], None)
              | w # _ \<Rightarrow>
                  if \<not> compareUtxos (utxoMap w) allUtxos then
                    let unblindedOrNotUtxos =
                          map (\<lambda>keyPairData.
                                 map (\<lambda>u. tryToUnblindUtxo env u (snd keyPairData))
                                     (fst keyPairData)) fetched;
                        newMap = concat (map (map (\<lambda>u. (toOutpoint u, u))) unblindedOrNotUtxos)
                    in (case repoSetUtxos env newMap of
                          Some error \<Rightarrow>
                            ([RepoSetUtxos newMap,
                              Dispatch WALLET_SET_UTXOS_FAILURE (ErrorPayload error),
                              OnError error], None)
                        | None \<Rightarrow>
                            ([RepoSetUtxos newMap,
                              Dispatch WALLET_SET_UTXOS_SUCCESS (UtxoMapPayload newMap),
                              OnSuccess], None))
                  else ([OnSuccess], None)))"

fun dispatchesUtxoMap :: "effect \<Rightarrow> bool" where
  "dispatchesUtxoMap (Dispatch _ (UtxoMapPayload _)) = True"
| "dispatchesUtxoMap _ = False"


section \<open>The periodic updater (backend.ts)\<close>

text \<open>
  The tracked set of the updater is the object \<^verbatim>\<open>utxosMap\<close>, from outpoint string to output:
  an association list read with \<open>map_of\<close>, whose values \<^verbatim>\<open>Object.values\<close> lists in order.
\<close>

type_synonym utxosMap = "(string \<times> utxo) list"

record rootState =
  isAuthenticated :: bool
  utxosMap :: utxosMap

datatype utxoAction =
    AddUtxo string utxo
  | DeleteUtxo string nat

text \<open>
  The primitives the updater takes from the identity library: unblinding an output with the
  key of its address (\<open>None\<close> when it fails), the test for an output that is still blinded,
  and the explorer request of \<^verbatim>\<open>utxoWithPrevout\<close> (\<open>None\<close> when the request throws).
\<close>

record ldk =
  unblind :: "utxo \<Rightarrow> (string \<times> nat) option"
  isBlindedUtxo :: "utxo \<Rightarrow> bool"
  fetchPrevout :: "utxo \<Rightarrow> string option"

definition unblindOrKeep :: "ldk \<Rightarrow> utxo \<Rightarrow> utxo" where
  "unblindOrKeep lib u =
     (case unblind lib u of
        None \<Rightarrow> u
      | Some (a, v) \<Rightarrow> u\<lparr>asset := Some a, value := Some v\<rparr>)"

definition utxoWithPrevout :: "ldk \<Rightarrow> utxo \<Rightarrow> utxo option" where
  "utxoWithPrevout lib u = map_option (\<lambda>p. u\<lparr>prevout := Some p\<rparr>) (fetchPrevout lib u)"

text \<open>The state the thunk mutates while it runs: the outpoints its skip predicate accepted
  and the actions it dispatched.\<close>

record updaterState =
  skippedOutpoints :: "string list"
  dispatched :: "utxoAction list"

text \<open>
  The skip predicate handed to the generator, with its push onto \<^verbatim>\<open>skippedOutpoints\<close>.
\<close>

definition skipUtxo :: "utxosMap \<Rightarrow> utxo \<Rightarrow> updaterState \<Rightarrow> bool \<times> updaterState" where
  "skipUtxo m u st =
     (let outpoint = toStringOutpoint u;
          skip = (map_of m outpoint \<noteq> None)
      in (skip, if skip then st\<lparr>skippedOutpoints := skippedOutpoints st @ [toStringOutpoint u]\<rparr>
                else st))"

text \<open>
  Modelled from the spec: the generator \<^verbatim>\<open>fetchAndUnblindUtxosGenerator\<close> belongs to the
  identity library and is not under src/. For every raw output scanned, if the skip
  predicate holds the output is kept as it is, otherwise unblinding is attempted, and a
  failure leaves the output blinded. The function below is one step of that stream: what
  the generator yields for one raw output.
\<close>

definition generatorYield :: "ldk \<Rightarrow> utxosMap \<Rightarrow> utxo \<Rightarrow> updaterState \<Rightarrow> utxo \<times> updaterState" where
  "generatorYield lib m raw st =
     (case skipUtxo m raw st of
        (skip, st') \<Rightarrow> (if skip then raw else unblindOrKeep lib raw, st'))"

text \<open>
  The \<^verbatim>\<open>while\<close> loop over the stream. \<open>Inl\<close> is the loop left by an exception (a failed
  request for the previous output), with the state reached so far; the asset lookups of
  \<^verbatim>\<open>fetchAssetInfos\<close> dispatch no action on outputs and swallow their own failures, and
  are left out.
\<close>

fun updaterLoop ::
  "ldk \<Rightarrow> string \<Rightarrow> utxosMap \<Rightarrow> utxo list \<Rightarrow> updaterState \<Rightarrow> updaterState + updaterState" where
  "updaterLoop lib accountID m [] st = Inr st"
| "updaterLoop lib accountID m (raw # rest) st =
     (case generatorYield lib m raw st of
        (u, st') \<Rightarrow>
          if \<not> isBlindedUtxo lib u then
            (case (if prevout u = None then utxoWithPrevout lib u else Some u) of
               None \<Rightarrow> Inl st'
             | Some u' \<Rightarrow>
                 updaterLoop lib accountID m rest
                   (st'\<lparr>dispatched := dispatched st' @ [AddUtxo accountID u']\<rparr>))
          else updaterLoop lib accountID m rest st')"

text \<open>The final \<^verbatim>\<open>for\<close> loop over \<^verbatim>\<open>currentOutpoints\<close>.\<close>

fun deleteLoop :: "outpoint list \<Rightarrow> updaterState \<Rightarrow> updaterState" where
  "deleteLoop [] st = st"
| "deleteLoop (outpoint # rest) st =
     (if toStringOutpoint outpoint \<in> set (skippedOutpoints st) then deleteLoop rest st
      else deleteLoop rest
             (st\<lparr>dispatched := dispatched st @ [DeleteUtxo (txid outpoint) (vout outpoint)]\<rparr>))"

text \<open>
  \<^verbatim>\<open>makeUtxosUpdaterThunk\<close>: the actions on outputs it dispatches, in order, in a run
  that obtains the addresses of the account and for which the explorer returns the raw
  outputs \<open>fetched\<close>. Whatever is thrown inside is caught by the thunk, which then stops
  with the actions dispatched so far.
\<close>

definition makeUtxosUpdaterThunk ::
  "ldk \<Rightarrow> string \<Rightarrow> utxo list \<Rightarrow> rootState \<Rightarrow> utxoAction list" where
  "makeUtxosUpdaterThunk lib accountID fetched state =
     (if \<not> isAuthenticated state then []
      else
        let m = utxosMap state;
            currentOutpoints = map (\<lambda>u. \<lparr>txid = txid u, vout = vout u\<rparr>) (map snd m)
        in (case updaterLoop lib accountID m fetched
                   \<lparr>skippedOutpoints = [], dispatched = []\<rparr> of
              Inl st \<Rightarrow> dispatched st
            | Inr st \<Rightarrow> dispatched (deleteLoop currentOutpoints st)))"

text \<open>
  Modelled from the spec: the reducer of \<^verbatim>\<open>addUtxo\<close> and \<^verbatim>\<open>deleteUtxo\<close> is not under src/.
  The tracked set maps the outpoint string to the output, with at most one entry for an
  outpoint: an added output overwrites the entry of its outpoint, a deleted outpoint loses
  its entry.
\<close>

fun applyUtxoAction :: "utxosMap \<Rightarrow> utxoAction \<Rightarrow> utxosMap" where
  "applyUtxoAction m (AddUtxo accountID u) = AList.update (toStringOutpoint u) u m"
| "applyUtxoAction m (DeleteUtxo t v) = AList.delete (toStringOutpoint \<lparr>txid = t, vout = v\<rparr>) m"

definition applyDiff :: "utxosMap \<Rightarrow> utxoAction list \<Rightarrow> utxosMap" where
  "applyDiff m actions = foldl applyUtxoAction m actions"

text \<open>The tracked set is keyed by the outpoint string of the output it stores.\<close>

definition keyedByOutpoint :: "utxosMap \<Rightarrow> bool" where
  "keyedByOutpoint m = list_all (\<lambda>(k, u). k = toStringOutpoint u) m"

text \<open>
  Modelled from the spec: the library's \<^verbatim>\<open>isBlindedUtxo\<close> is not under src/. An output
  is blinded while its asset or its value is undefined.
\<close>

definition blindedUtxo :: "utxo \<Rightarrow> bool" where
  "blindedUtxo u = (asset u = None \<or> value u = None)"

text \<open>A library whose unblinding fails on every output, and whose explorer answers.\<close>

definition failingLdk :: ldk where
  "failingLdk = \<lparr>unblind = (\<lambda>u. None), isBlindedUtxo = blindedUtxo,
                 fetchPrevout = (\<lambda>u. Some [])\<rparr>"


text \<open>
  What the stream yields for a raw output, and whether the loop over the stream ran to its
  end (no request for a previous output threw).
\<close>

definition yieldedUtxo :: "ldk \<Rightarrow> utxosMap \<Rightarrow> utxo \<Rightarrow> utxo" where
  "yieldedUtxo lib m raw = fst (generatorYield lib m raw \<lparr>skippedOutpoints = [], dispatched = []\<rparr>)"

definition streamCompletes :: "ldk \<Rightarrow> string \<Rightarrow> utxo list \<Rightarrow> rootState \<Rightarrow> bool" where
  "streamCompletes lib accountID fetched state =
     (case updaterLoop lib accountID (utxosMap state) fetched
             \<lparr>skippedOutpoints = [], dispatched = []\<rparr> of
        Inl _ \<Rightarrow> False
      | Inr _ \<Rightarrow> True)"

text \<open>The outpoint keys tracked after the dispatched actions have been applied.\<close>

definition keysAfter :: "utxosMap \<Rightarrow> utxoAction list \<Rightarrow> string set" where
  "keysAfter m actions = fst ` set (applyDiff m actions)"


section \<open>Outputs of a signed transaction (utils/utxos.ts)\<close>






















section \<open>Concrete inputs\<close>

text \<open>A transaction id and an asset id of the wire format: 64 hexadecimal characters.\<close>

definition txidA :: string where
  "txidA = replicate 64 CHR ''a''"

definition assetB :: string where
  "assetB = replicate 64 CHR ''b''"

text \<open>A wallet holding the given outputs, each stored under its own outpoint.\<close>

definition walletWith :: "utxo list \<Rightarrow> appState" where
  "walletWith us =
     \<lparr>network = ''regtest'',
      wallets = [\<lparr>masterXPub = ''xpub'', masterBlindingKey = ''key'',
                  encryptedMnemonic = Some ''encrypted'', passwordHash = ''hash'',
                  confidentialAddresses = [], utxoMap = map (\<lambda>u. (toOutpoint u, u)) us\<rparr>]\<rparr>"

definition unblindedUtxo :: "nat \<Rightarrow> nat \<Rightarrow> utxo" where
  "unblindedUtxo n v =
     \<lparr>txid = txidA, vout = n, asset = Some assetB, value = Some v, prevout = None\<rparr>"

definition opaqueUtxo :: "nat \<Rightarrow> utxo" where
  "opaqueUtxo n = \<lparr>txid = txidA, vout = n, asset = None, value = None, prevout = None\<rparr>"


text \<open>
  Collaborators for a wallet whose explorer returns the given outputs for every address,
  whose repository accepts every call, and whose unblinding fails.
\<close>

definition staticEnv :: "utxo list \<Rightarrow> walletEnv" where
  "staticEnv us =
     \<lparr>newMnemonic = (\<lambda>chain m. Inr (''xpub'', ''key'')),
      restoreMnemonic = (\<lambda>chain m. Inr (''xpub'', ''key'', True, [])),
      encrypt = (\<lambda>m p. ''encrypted''),
      hashPassword = (\<lambda>p. ''hash''),
      repoGetOrCreateWallet = (\<lambda>w. None),
      repoSetUtxos = (\<lambda>m. None),
      fetchUtxos = (\<lambda>a. Inr us),
      unblindUtxo = (\<lambda>u k. None)\<rparr>"

definition oneAddress :: "addressInterface list" where
  "oneAddress = [\<lparr>confidentialAddress = ''address'', blindingPrivateKey = ''key''\<rparr>]"


text \<open>An authenticated state that tracks the given outputs under their outpoint strings.\<close>

definition tracking :: "utxo list \<Rightarrow> rootState" where
  "tracking us =
     \<lparr>isAuthenticated = True, utxosMap = map (\<lambda>u. (toStringOutpoint u, u)) us\<rparr>"









section \<open>Properties of the outpoint key\<close>

lemma of_char_digitChar: "d < 10 \<Longrightarrow> (of_char (digitChar d) :: nat) = 48 + d"
proof -
  assume "d < 10"
  then have "d = 0 \<or> d = 1 \<or> d = 2 \<or> d = 3 \<or> d = 4 \<or> d = 5 \<or> d = 6 \<or> d = 7 \<or> d = 8 \<or> d = 9"
    by arith
  then show ?thesis
    by (elim disjE) (simp_all add: digitChar_def)
qed

lemma digitChar_inj: "a < 10 \<Longrightarrow> b < 10 \<Longrightarrow> digitChar a = digitChar b \<Longrightarrow> a = b"
proof -
  assume a: "a < 10" and b: "b < 10" and e: "digitChar a = digitChar b"
  from e have "(of_char (digitChar a) :: nat) = of_char (digitChar b)" by (rule arg_cong)
  then have "48 + a = 48 + b"
    by (simp only: of_char_digitChar [OF a] of_char_digitChar [OF b])
  then show "a = b" by linarith
qed

lemma digitChar_not_colon: "d < 10 \<Longrightarrow> digitChar d \<noteq> CHR '':''"
proof
  assume d: "d < 10" and e: "digitChar d = CHR '':''"
  from e have "(of_char (digitChar d) :: nat) = of_char (CHR '':'')" by (rule arg_cong)
  then have "48 + d = (58::nat)" by (simp only: of_char_digitChar [OF d]) simp
  with d show False by linarith
qed

lemma numberToString_small: "n < 10 \<Longrightarrow> numberToString n = [digitChar n]"
  by (subst numberToString.simps) simp

lemma numberToString_large:
  "\<not> n < 10 \<Longrightarrow> numberToString n = numberToString (n div 10) @ [digitChar (n mod 10)]"
  by (subst numberToString.simps) simp

lemma numberToString_nonempty: "numberToString n \<noteq> []"
  by (subst numberToString.simps) simp

lemma numberToString_inj: "numberToString a = numberToString b \<Longrightarrow> a = b"
proof (induction a arbitrary: b rule: numberToString.induct)
  case (1 n)
  show ?case
  proof (cases "n < 10")
    case True
    note l = numberToString_small [OF True]
    show ?thesis
    proof (cases "b < 10")
      case bs: True
      from l numberToString_small [OF bs] "1.prems" have "digitChar n = digitChar b" by simp
      with True bs show ?thesis by (rule digitChar_inj)
    next
      case False
      from l numberToString_large [OF False] "1.prems"
      have "numberToString (b div 10) = []" by simp
      with numberToString_nonempty show ?thesis by blast
    qed
  next
    case False
    note l = numberToString_large [OF False]
    show ?thesis
    proof (cases "b < 10")
      case True
      from l numberToString_small [OF True] "1.prems"
      have "numberToString (n div 10) = []" by simp
      with numberToString_nonempty show ?thesis by blast
    next
      case bl: False
      from l numberToString_large [OF bl] "1.prems"
      have e1: "numberToString (n div 10) = numberToString (b div 10)"
        and e2: "digitChar (n mod 10) = digitChar (b mod 10)" by simp_all
      from "1.IH" [OF False e1] have d: "n div 10 = b div 10" .
      have m: "n mod 10 = b mod 10" using e2 by (intro digitChar_inj) simp_all
      have "n = 10 * (n div 10) + n mod 10" by simp
      also have "\<dots> = 10 * (b div 10) + b mod 10" using d m by simp
      also have "\<dots> = b" by simp
      finally show ?thesis .
    qed
  qed
qed

lemma numberToString_no_colon: "CHR '':'' \<notin> set (numberToString n)"
proof (induction n rule: numberToString.induct)
  case (1 n)
  show ?case
  proof (cases "n < 10")
    case True
    with digitChar_not_colon [OF True] numberToString_small [OF True] show ?thesis by auto
  next
    case False
    have "digitChar (n mod 10) \<noteq> CHR '':''"
      by (rule digitChar_not_colon) simp
    with numberToString_large [OF False] "1.IH" [OF False] show ?thesis by auto
  qed
qed

lemma key_split:
  assumes "t1 @ CHR '':'' # d1 = t2 @ CHR '':'' # d2"
    and "CHR '':'' \<notin> set d1" and "CHR '':'' \<notin> set d2"
  shows "t1 = t2 \<and> d1 = d2"
  using assms
proof (induction t1 arbitrary: t2)
  case Nil
  then show ?case by (cases t2) auto
next
  case (Cons a t1)
  show ?case
  proof (cases t2)
    case Nil
    with Cons.prems show ?thesis by auto
  next
    case (Cons b t2')
    with Cons.prems Cons.IH [of t2'] show ?thesis by simp
  qed
qed

lemma toStringOutpoint_inj:
  "toStringOutpoint a = toStringOutpoint b \<Longrightarrow> txid a = txid b \<and> vout a = vout b"
  unfolding toStringOutpoint_def
  using key_split [of "txid a" "numberToString (vout a)" "txid b" "numberToString (vout b)"]
    numberToString_no_colon numberToString_inj
  by simp

text \<open>
  C9. \<^verbatim>\<open>toStringOutpoint\<close> is a function of the outpoint that yields the txid, a colon and
  the decimal vout; on outpoints whose txid is a 64-character hexadecimal string (and whose
  vout is a non-negative integer) two outpoints have the same key exactly when they are
  equal, which is when they have the same txid and the same vout.
\<close>

theorem toStringOutpoint_canonical:
  fixes a b :: outpoint
  shows "toStringOutpoint a = txid a @ '':'' @ numberToString (vout a) \<and>
         (isTxid (txid a) \<and> isTxid (txid b) \<longrightarrow>
            (toStringOutpoint a = toStringOutpoint b) = (a = b) \<and>
            (a = b) = (txid a = txid b \<and> vout a = vout b))"
proof -
  have "(toStringOutpoint a = toStringOutpoint b) = (a = b)"
    using toStringOutpoint_inj [of a b] by auto
  moreover have "(a = b) = (txid a = txid b \<and> vout a = vout b)" by auto
  ultimately show ?thesis by (simp add: toStringOutpoint_def)
qed

theorem toStringOutpoint_canonical_witness:
  "isTxid (txid \<lparr>txid = txidA, vout = 0\<rparr>) \<and> isTxid (txid \<lparr>txid = txidA, vout = 2\<rparr>) \<and>
   toStringOutpoint \<lparr>txid = txidA, vout = 2\<rparr> = txidA @ '':2'' \<and>
   toStringOutpoint \<lparr>txid = txidA, vout = 2\<rparr> \<noteq> toStringOutpoint \<lparr>txid = txidA, vout = 0\<rparr>"
proof -
  have h: "isTxid txidA"
    by (simp add: isTxid_def isHexChar_def txidA_def list_all_iff)
  then have h0: "isTxid (txid \<lparr>txid = txidA, vout = 0\<rparr>)"
    and h2: "isTxid (txid \<lparr>txid = txidA, vout = 2\<rparr>)" by simp_all
  have n: "numberToString 2 = ''2''"
    by (simp add: numberToString.simps digitChar_def)
  note c = toStringOutpoint_canonical [of "\<lparr>txid = txidA, vout = 2\<rparr>" "\<lparr>txid = txidA, vout = 0\<rparr>"]
  from c n have k: "toStringOutpoint \<lparr>txid = txidA, vout = 2\<rparr> = txidA @ '':2''"
    by simp
  from c h0 h2
  have "(toStringOutpoint \<lparr>txid = txidA, vout = 2\<rparr> = toStringOutpoint \<lparr>txid = txidA, vout = 0\<rparr>)
         = (\<lparr>txid = txidA, vout = 2\<rparr> = \<lparr>txid = txidA, vout = 0\<rparr>)"
    by blast
  then have d: "toStringOutpoint \<lparr>txid = txidA, vout = 2\<rparr> \<noteq> toStringOutpoint \<lparr>txid = txidA, vout = 0\<rparr>"
    by simp
  from h0 h2 k d show ?thesis by blast
qed

section \<open>Properties of the balance view\<close>

lemma balancesReducer_falsy:
  "\<not> truthyString (asset c) \<or> \<not> truthyNumber (value c) \<Longrightarrow>
   balancesReducer (acc, log) c =
     (acc, log @ [Dispatch WALLET_GET_ALL_BALANCES_FAILURE NoPayload,
                  OnError (missingInfoMessage c)])"
  by simp

lemma foldl_balancesReducer_log:
  "foldl balancesReducer (acc, log) us =
     (fst (foldl balancesReducer (acc, []) us),
      log @ snd (foldl balancesReducer (acc, []) us))"
proof (induction us arbitrary: acc log)
  case Nil
  show ?case by simp
next
  case (Cons u us)
  obtain acc' ext where step: "balancesReducer (acc, []) u = (acc', ext)"
    by (cases "balancesReducer (acc, []) u")
  then have step': "balancesReducer (acc, log) u = (acc', log @ ext)"
    by (auto split: if_splits option.splits)
  show ?case
    using Cons.IH [of acc' "log @ ext"] Cons.IH [of acc' ext]
    by (simp add: step step' del: balancesReducer.simps)
qed

lemma foldl_balancesReducer_falsy_entry:
  assumes "\<not> truthyString (asset c) \<or> \<not> truthyNumber (value c)"
  shows "foldl balancesReducer (acc, log) (xs @ c # ys) =
           (fst (foldl balancesReducer (acc, log) (xs @ ys)),
            snd (foldl balancesReducer (acc, log) xs) @
              [Dispatch WALLET_GET_ALL_BALANCES_FAILURE NoPayload, OnError (missingInfoMessage c)] @
              snd (foldl balancesReducer (fst (foldl balancesReducer (acc, log) xs), []) ys))"
proof -
  obtain a1 l1 where pre: "foldl balancesReducer (acc, log) xs = (a1, l1)"
    by (cases "foldl balancesReducer (acc, log) xs")
  let ?e = "[Dispatch WALLET_GET_ALL_BALANCES_FAILURE NoPayload, OnError (missingInfoMessage c)]"
  have "foldl balancesReducer (acc, log) (xs @ c # ys) =
          foldl balancesReducer (a1, l1 @ ?e) ys"
    using balancesReducer_falsy [OF assms, of a1 l1]
    by (simp add: pre del: balancesReducer.simps)
  also have "\<dots> = (fst (foldl balancesReducer (a1, []) ys),
                    (l1 @ ?e) @ snd (foldl balancesReducer (a1, []) ys))"
    by (rule foldl_balancesReducer_log)
  finally have whole: "foldl balancesReducer (acc, log) (xs @ c # ys) =
      (fst (foldl balancesReducer (a1, []) ys), (l1 @ ?e) @ snd (foldl balancesReducer (a1, []) ys))" .
  have "foldl balancesReducer (acc, log) (xs @ ys) = foldl balancesReducer (a1, l1) ys"
    by (simp add: pre)
  also have "\<dots> = (fst (foldl balancesReducer (a1, []) ys),
                    l1 @ snd (foldl balancesReducer (a1, []) ys))"
    by (rule foldl_balancesReducer_log)
  finally have without: "fst (foldl balancesReducer (acc, log) (xs @ ys)) =
      fst (foldl balancesReducer (a1, []) ys)" by simp
  show ?thesis unfolding whole without pre by simp
qed

lemma reportedBalances_getAllBalances:
  "wallets st = w # ws \<Longrightarrow>
   reportedBalances (getAllBalances st) =
     Some (fst (foldl balancesReducer ([], []) (map snd (utxoMap w))))"
  by (simp add: getAllBalances_def reportedBalances_def split: prod.splits)

lemma effects_getAllBalances:
  "wallets st = w # ws \<Longrightarrow>
   fst (getAllBalances st) =
     snd (foldl balancesReducer ([], []) (map snd (utxoMap w))) @
       [Dispatch WALLET_GET_ALL_BALANCES_SUCCESS NoPayload,
        OnSuccessBalances (fst (foldl balancesReducer ([], []) (map snd (utxoMap w))))]"
  by (simp add: getAllBalances_def split: prod.splits)

lemma getAllBalances_falsy_entry:
  assumes w: "wallets st = w # ws" and m: "utxoMap w = xs @ (k, c) # ys"
    and f: "\<not> truthyString (asset c) \<or> \<not> truthyNumber (value c)"
  shows "Dispatch WALLET_GET_ALL_BALANCES_FAILURE NoPayload \<in> set (fst (getAllBalances st))"
    and "OnError (missingInfoMessage c) \<in> set (fst (getAllBalances st))"
    and "reportedBalances (getAllBalances st) =
         reportedBalances (getAllBalances (st\<lparr>wallets := w\<lparr>utxoMap := xs @ ys\<rparr> # ws\<rparr>))"
proof -
  have ms: "map snd (utxoMap w) = map snd xs @ c # map snd ys"
    by (simp add: m)
  note fe = foldl_balancesReducer_falsy_entry [OF f, of "[]" "[]" "map snd xs" "map snd ys"]
  show "Dispatch WALLET_GET_ALL_BALANCES_FAILURE NoPayload \<in> set (fst (getAllBalances st))"
    unfolding effects_getAllBalances [OF w] ms fe by simp
  show "OnError (missingInfoMessage c) \<in> set (fst (getAllBalances st))"
    unfolding effects_getAllBalances [OF w] ms fe by simp
  have w': "wallets (st\<lparr>wallets := w\<lparr>utxoMap := xs @ ys\<rparr> # ws\<rparr>) = w\<lparr>utxoMap := xs @ ys\<rparr> # ws"
    by simp
  show "reportedBalances (getAllBalances st) =
         reportedBalances (getAllBalances (st\<lparr>wallets := w\<lparr>utxoMap := xs @ ys\<rparr> # ws\<rparr>))"
    unfolding reportedBalances_getAllBalances [OF w] reportedBalances_getAllBalances [OF w'] ms fe
    by simp
qed

lemma missingInfoMessage_zero:
  "missingInfoMessage (unblindedUtxo n 0) = ''Missing utxo info. Asset: '' @ assetB @ '', Value: 0''"
  by (simp add: missingInfoMessage_def unblindedUtxo_def showString_def showNumber_def
      numberToString.simps digitChar_def)

text \<open>
  C10. An entry whose asset is defined and whose value is 0 takes the missing-data branch
  of \<^verbatim>\<open>getAllBalances\<close>, because the test is JavaScript falsiness: the reducer leaves the
  balances as they are, dispatches the failure action and calls the error callback, as it
  does for the same entry with an undefined value; in the whole run both signals occur
  and the reported balances are those of the map without the entry.
\<close>

theorem zero_value_is_missing_data:
  assumes w: "wallets st = w # ws" and m: "utxoMap w = xs @ (k, cur) # ys"
    and a: "asset cur = Some a" and v: "value cur = Some 0"
  shows "balancesReducer (acc, log) cur =
           (acc, log @ [Dispatch WALLET_GET_ALL_BALANCES_FAILURE NoPayload,
                        OnError (missingInfoMessage cur)]) \<and>
         balancesReducer (acc, log) (cur\<lparr>value := None\<rparr>) =
           (acc, log @ [Dispatch WALLET_GET_ALL_BALANCES_FAILURE NoPayload,
                        OnError (missingInfoMessage (cur\<lparr>value := None\<rparr>))]) \<and>
         Dispatch WALLET_GET_ALL_BALANCES_FAILURE NoPayload \<in> set (fst (getAllBalances st)) \<and>
         OnError (missingInfoMessage cur) \<in> set (fst (getAllBalances st)) \<and>
         reportedBalances (getAllBalances st) =
           reportedBalances (getAllBalances (st\<lparr>wallets := w\<lparr>utxoMap := xs @ ys\<rparr> # ws\<rparr>))"
proof -
  have f: "\<not> truthyString (asset cur) \<or> \<not> truthyNumber (value cur)"
    by (simp add: v truthyNumber_def)
  have f': "\<not> truthyString (asset (cur\<lparr>value := None\<rparr>)) \<or>
            \<not> truthyNumber (value (cur\<lparr>value := None\<rparr>))"
    by (simp add: truthyNumber_def)
  show ?thesis
    using balancesReducer_falsy [OF f, of acc log] balancesReducer_falsy [OF f', of acc log]
      getAllBalances_falsy_entry [OF w m f]
    by blast
qed

theorem zero_value_is_missing_data_witness:
  "wallets (walletWith [unblindedUtxo 0 0]) = [hd (wallets (walletWith [unblindedUtxo 0 0]))] \<and>
   utxoMap (hd (wallets (walletWith [unblindedUtxo 0 0]))) =
     [] @ (toOutpoint (unblindedUtxo 0 0), unblindedUtxo 0 0) # [] \<and>
   asset (unblindedUtxo 0 0) = Some assetB \<and> value (unblindedUtxo 0 0) = Some 0 \<and>
   OnError (''Missing utxo info. Asset: '' @ assetB @ '', Value: 0'')
     \<in> set (fst (getAllBalances (walletWith [unblindedUtxo 0 0]))) \<and>
   reportedBalances (getAllBalances (walletWith [unblindedUtxo 0 0])) = Some []"
proof -
  have w: "wallets (walletWith [unblindedUtxo 0 0]) = [hd (wallets (walletWith [unblindedUtxo 0 0]))]"
    by (simp add: walletWith_def)
  have m: "utxoMap (hd (wallets (walletWith [unblindedUtxo 0 0]))) =
     [] @ (toOutpoint (unblindedUtxo 0 0), unblindedUtxo 0 0) # []"
    by (simp add: walletWith_def)
  have a: "asset (unblindedUtxo 0 0) = Some assetB" and v: "value (unblindedUtxo 0 0) = Some 0"
    by (simp_all add: unblindedUtxo_def)
  have e: "reportedBalances (getAllBalances (walletWith [unblindedUtxo 0 0]
             \<lparr>wallets := hd (wallets (walletWith [unblindedUtxo 0 0]))\<lparr>utxoMap := [] @ []\<rparr> # []\<rparr>))
           = Some []"
    by (simp add: getAllBalances_def reportedBalances_def walletWith_def)
  from zero_value_is_missing_data [OF w m a v, of "[]" "[]"] e missingInfoMessage_zero [of 0]
  show ?thesis using w m a v by simp
qed

text \<open>
  C5, as the code has it. An entry whose asset or value is undefined is left out of the
  reported balances (they are those of the map without the entry, so the entry is not
  counted as zero), and the caller gets an explicit failure signal: the failure action and
  an error callback. The message of the callback states the asset and the value of the
  entry; it is the same for every outpoint the entry may have.
\<close>

theorem undefined_field_is_excluded_and_signalled:
  assumes w: "wallets st = w # ws" and m: "utxoMap w = xs @ (k, cur) # ys"
    and u: "asset cur = None \<or> value cur = None"
  shows "reportedBalances (getAllBalances st) =
           reportedBalances (getAllBalances (st\<lparr>wallets := w\<lparr>utxoMap := xs @ ys\<rparr> # ws\<rparr>)) \<and>
         Dispatch WALLET_GET_ALL_BALANCES_FAILURE NoPayload \<in> set (fst (getAllBalances st)) \<and>
         OnError (''Missing utxo info. Asset: '' @ showString (asset cur) @
                  '', Value: '' @ showNumber (value cur)) \<in> set (fst (getAllBalances st)) \<and>
         missingInfoMessage (cur\<lparr>txid := t, vout := n\<rparr>) = missingInfoMessage cur"
proof -
  have f: "\<not> truthyString (asset cur) \<or> \<not> truthyNumber (value cur)"
    using u by (auto simp add: truthyString_def truthyNumber_def)
  have "missingInfoMessage (cur\<lparr>txid := t, vout := n\<rparr>) = missingInfoMessage cur"
    by (simp add: missingInfoMessage_def)
  with getAllBalances_falsy_entry [OF w m f] show ?thesis
    by (simp add: missingInfoMessage_def)
qed

theorem undefined_field_is_excluded_and_signalled_witness:
  "wallets (walletWith [opaqueUtxo 0]) = [hd (wallets (walletWith [opaqueUtxo 0]))] \<and>
   utxoMap (hd (wallets (walletWith [opaqueUtxo 0]))) =
     [] @ (toOutpoint (opaqueUtxo 0), opaqueUtxo 0) # [] \<and>
   (asset (opaqueUtxo 0) = None \<or> value (opaqueUtxo 0) = None) \<and>
   OnError ''Missing utxo info. Asset: undefined, Value: undefined''
     \<in> set (fst (getAllBalances (walletWith [opaqueUtxo 0]))) \<and>
   reportedBalances (getAllBalances (walletWith [opaqueUtxo 0])) = Some []"
proof -
  have w: "wallets (walletWith [opaqueUtxo 0]) = [hd (wallets (walletWith [opaqueUtxo 0]))]"
    by (simp add: walletWith_def)
  have m: "utxoMap (hd (wallets (walletWith [opaqueUtxo 0]))) =
     [] @ (toOutpoint (opaqueUtxo 0), opaqueUtxo 0) # []"
    by (simp add: walletWith_def)
  have u: "asset (opaqueUtxo 0) = None \<or> value (opaqueUtxo 0) = None"
    by (simp add: opaqueUtxo_def)
  have e: "reportedBalances (getAllBalances (walletWith [opaqueUtxo 0]
             \<lparr>wallets := hd (wallets (walletWith [opaqueUtxo 0]))\<lparr>utxoMap := [] @ []\<rparr> # []\<rparr>))
           = Some []"
    by (simp add: getAllBalances_def reportedBalances_def walletWith_def)
  have s: "showString (asset (opaqueUtxo 0)) = ''undefined''"
    "showNumber (value (opaqueUtxo 0)) = ''undefined''"
    by (simp_all add: opaqueUtxo_def showString_def showNumber_def)
  from undefined_field_is_excluded_and_signalled [OF w m u] e s
  show ?thesis using w m u by simp
qed

text \<open>
  The failure signal does not name the outpoint: for a wallet whose only entry is an
  opaque output, the one message handed to the error callback does not contain the txid.
\<close>

theorem failure_signal_omits_outpoint:
  "errorMessages (fst (getAllBalances (walletWith [opaqueUtxo 0]))) =
     [''Missing utxo info. Asset: undefined, Value: undefined''] \<and>
   \<not> namesOutpoint (getAllBalances (walletWith [opaqueUtxo 0])) (toOutpoint (opaqueUtxo 0))"
proof -
  have e: "errorMessages (fst (getAllBalances (walletWith [opaqueUtxo 0]))) =
     [''Missing utxo info. Asset: undefined, Value: undefined'']"
    by (simp add: getAllBalances_def walletWith_def opaqueUtxo_def truthyString_def
        missingInfoMessage_def showString_def showNumber_def)
  have t: "txid (toOutpoint (opaqueUtxo 0)) = txidA"
    by (simp add: toOutpoint_def opaqueUtxo_def)
  have "length ''Missing utxo info. Asset: undefined, Value: undefined'' < length txidA"
    by (simp add: txidA_def)
  then have "\<not> sublist txidA ''Missing utxo info. Asset: undefined, Value: undefined''"
    using sublist_length_le [of txidA "''Missing utxo info. Asset: undefined, Value: undefined''"]
    by linarith
  with e t show ?thesis by (simp add: namesOutpoint_def)
qed

text \<open>
  C2 asks for the sum of the values of the unblinded outputs of an asset. The reducer
  assigns \<^verbatim>\<open>[cur.asset]: cur.value\<close> instead of adding: with two unblinded outputs of one
  asset, of values 100 and 50, the reported balance is 50, where the sum is 150.
\<close>

theorem same_asset_balance_is_last_value:
  "reportedBalances (getAllBalances (walletWith [unblindedUtxo 0 100, unblindedUtxo 1 50])) =
     Some [(assetB, 50)] \<and>
   summedBalance [unblindedUtxo 0 100, unblindedUtxo 1 50] assetB = 150"
proof -
  have b: "assetB \<noteq> []" by (simp add: assetB_def)
  have "reportedBalances (getAllBalances (walletWith [unblindedUtxo 0 100, unblindedUtxo 1 50])) =
     Some [(assetB, 50)]"
    by (simp add: getAllBalances_def walletWith_def unblindedUtxo_def truthyString_def
        truthyNumber_def reportedBalances_def b)
  moreover have "summedBalance [unblindedUtxo 0 100, unblindedUtxo 1 50] assetB = 150"
    by (simp add: summedBalance_def unblindedUtxo_def)
  ultimately show ?thesis by simp
qed

section \<open>Properties of wallet creation and of the refresh\<close>




text \<open>
  Without a wallet in the state the same thunk does reach the repository.
\<close>

lemma createWallet_fresh:
  "wallets st = [] \<Longrightarrow>
   list_ex isRepoWrite (fst (createWallet (staticEnv []) password mnemonic st))"
  by (simp add: createWallet_def walletExists_def staticEnv_def Let_def)

lemma compareKeys_iff:
  "compareKeys ks fetchedUtxos =
     (\<forall>k \<in> set ks. \<exists>u \<in> set fetchedUtxos. txid u = txid k \<and> vout u = vout k)"
  by (induction ks) (auto simp add: list_ex_iff)

lemma allUtxos_concat:
  "foldl (\<lambda>acc cur. acc @ fst cur) start fetched = start @ concat (map fst fetched)"
  by (induction fetched arbitrary: start) simp_all

text \<open>
  C4. \<^verbatim>\<open>compareUtxos\<close> returns true exactly when the store has as many entries as there
  are fetched outputs and every key of the store has a fetched output with the same txid
  and vout. When it returns true for the outputs fetched in a cycle, \<^verbatim>\<open>setUtxos\<close> only calls
  \<^verbatim>\<open>onSuccess\<close>: it writes nothing to the repository and dispatches no utxo map.
\<close>

theorem compareUtxos_short_circuit:
  "compareUtxos utxoMapStore fetchedUtxos =
     (length utxoMapStore = length fetchedUtxos \<and>
      (\<forall>outpoint \<in> set (map fst utxoMapStore).
         \<exists>u \<in> set fetchedUtxos. txid u = txid outpoint \<and> vout u = vout outpoint)) \<and>
   (wallets st = w # ws \<and> fetchAllUtxos env addressesWithBlindingKeys = Inr fetched \<and>
    compareUtxos (utxoMap w) (concat (map fst fetched)) \<longrightarrow>
      setUtxos env addressesWithBlindingKeys st = ([OnSuccess], None) \<and>
      \<not> list_ex isRepoWrite (fst (setUtxos env addressesWithBlindingKeys st)) \<and>
      \<not> list_ex dispatchesUtxoMap (fst (setUtxos env addressesWithBlindingKeys st)))"
proof -
  have iff: "compareUtxos utxoMapStore fetchedUtxos =
     (length utxoMapStore = length fetchedUtxos \<and>
      (\<forall>outpoint \<in> set (map fst utxoMapStore).
         \<exists>u \<in> set fetchedUtxos. txid u = txid outpoint \<and> vout u = vout outpoint))"
    unfolding compareUtxos_def compareKeys_iff by auto
  have skip: "setUtxos env addressesWithBlindingKeys st = ([OnSuccess], None)"
    if "wallets st = w # ws" and "fetchAllUtxos env addressesWithBlindingKeys = Inr fetched"
      and "compareUtxos (utxoMap w) (concat (map fst fetched))"
    using that by (simp add: setUtxos_def allUtxos_concat)
  from iff skip show ?thesis by simp
qed

theorem compareUtxos_short_circuit_witness:
  "wallets (walletWith [unblindedUtxo 0 100]) = [hd (wallets (walletWith [unblindedUtxo 0 100]))] \<and>
   fetchAllUtxos (staticEnv [unblindedUtxo 0 100]) oneAddress = Inr [([unblindedUtxo 0 100], ''key'')] \<and>
   compareUtxos (utxoMap (hd (wallets (walletWith [unblindedUtxo 0 100]))))
     (concat (map fst [([unblindedUtxo 0 100], ''key'')])) \<and>
   setUtxos (staticEnv [unblindedUtxo 0 100]) oneAddress (walletWith [unblindedUtxo 0 100]) =
     ([OnSuccess], None)"
proof -
  have w: "wallets (walletWith [unblindedUtxo 0 100]) = [hd (wallets (walletWith [unblindedUtxo 0 100]))]"
    by (simp add: walletWith_def)
  have f: "fetchAllUtxos (staticEnv [unblindedUtxo 0 100]) oneAddress =
      Inr [([unblindedUtxo 0 100], ''key'')]"
    by (simp add: staticEnv_def oneAddress_def)
  have c: "compareUtxos (utxoMap (hd (wallets (walletWith [unblindedUtxo 0 100]))))
     (concat (map fst [([unblindedUtxo 0 100], ''key'')]))"
    by (simp add: compareUtxos_def walletWith_def toOutpoint_def)
  from compareUtxos_short_circuit [of "[]" "[]" "walletWith [unblindedUtxo 0 100]"
      "hd (wallets (walletWith [unblindedUtxo 0 100]))" "[]" "staticEnv [unblindedUtxo 0 100]"
      oneAddress "[([unblindedUtxo 0 100], ''key'')]"] w f c
  show ?thesis by blast
qed

text \<open>
  When the sets differ, the same thunk writes the new map and dispatches it.
\<close>

lemma setUtxos_writes_when_different:
  "fst (setUtxos (staticEnv [unblindedUtxo 0 100]) oneAddress (walletWith [])) =
     [RepoSetUtxos [(toOutpoint (unblindedUtxo 0 100), unblindedUtxo 0 100)],
      Dispatch WALLET_SET_UTXOS_SUCCESS
        (UtxoMapPayload [(toOutpoint (unblindedUtxo 0 100), unblindedUtxo 0 100)]),
      OnSuccess]"
  by (simp add: setUtxos_def staticEnv_def oneAddress_def walletWith_def compareUtxos_def
      tryToUnblindUtxo_def Let_def)

section \<open>Properties of the updater\<close>

lemma toStringOutpoint_fields:
  "toStringOutpoint \<lparr>txid = txid u, vout = vout u\<rparr> = toStringOutpoint u"
  by (simp add: toStringOutpoint_def)

lemma toStringOutpoint_unblindOrKeep:
  "toStringOutpoint (unblindOrKeep lib u) = toStringOutpoint u"
  by (simp add: unblindOrKeep_def toStringOutpoint_def split: option.splits)

lemma generatorYield_eq:
  "generatorYield lib m raw st =
     (yieldedUtxo lib m raw,
      if map_of m (toStringOutpoint raw) \<noteq> None
      then st\<lparr>skippedOutpoints := skippedOutpoints st @ [toStringOutpoint raw]\<rparr> else st)"
  by (simp add: generatorYield_def yieldedUtxo_def skipUtxo_def Let_def)

lemma toStringOutpoint_yieldedUtxo:
  "toStringOutpoint (yieldedUtxo lib m raw) = toStringOutpoint raw"
  by (simp add: yieldedUtxo_def generatorYield_def skipUtxo_def Let_def
      toStringOutpoint_unblindOrKeep)

lemma utxoWithPrevout_key:
  "utxoWithPrevout lib u = Some u' \<Longrightarrow> toStringOutpoint u' = toStringOutpoint u"
  by (auto simp add: utxoWithPrevout_def toStringOutpoint_def)

lemma updaterLoop_result:
  "updaterLoop lib accountID m fetched st = Inr st' \<Longrightarrow>
   skippedOutpoints st' =
     skippedOutpoints st @
       map toStringOutpoint (filter (\<lambda>raw. map_of m (toStringOutpoint raw) \<noteq> None) fetched) \<and>
   (\<exists>us. dispatched st' = dispatched st @ map (AddUtxo accountID) us \<and>
         map toStringOutpoint us =
           map toStringOutpoint
             (filter (\<lambda>raw. \<not> isBlindedUtxo lib (yieldedUtxo lib m raw)) fetched))"
proof (induction fetched arbitrary: st)
  case Nil
  then show ?case by simp
next
  case (Cons raw rest)
  let ?y = "yieldedUtxo lib m raw"
  let ?st1 = "if map_of m (toStringOutpoint raw) \<noteq> None
      then st\<lparr>skippedOutpoints := skippedOutpoints st @ [toStringOutpoint raw]\<rparr> else st"
  have d1: "dispatched ?st1 = dispatched st" by simp
  have s1: "skippedOutpoints ?st1 = skippedOutpoints st @
      map toStringOutpoint (filter (\<lambda>raw. map_of m (toStringOutpoint raw) \<noteq> None) [raw])"
    by simp
  show ?case
  proof (cases "isBlindedUtxo lib ?y")
    case True
    with Cons.prems have "updaterLoop lib accountID m rest ?st1 = Inr st'"
      by (simp add: generatorYield_eq)
    from Cons.IH [OF this] True show ?thesis
      unfolding d1 s1 by auto
  next
    case False
    obtain u' where u': "(if prevout ?y = None then utxoWithPrevout lib ?y else Some ?y) = Some u'"
      and rec: "updaterLoop lib accountID m rest
                  (?st1\<lparr>dispatched := dispatched ?st1 @ [AddUtxo accountID u']\<rparr>) = Inr st'"
      using Cons.prems False
      by (simp add: generatorYield_eq split: option.splits if_splits)
    have k: "toStringOutpoint u' = toStringOutpoint raw"
      using u' utxoWithPrevout_key [of lib ?y u'] toStringOutpoint_yieldedUtxo [of lib m raw]
      by (auto split: if_splits)
    from Cons.IH [OF rec] obtain us where
      sk: "skippedOutpoints st' = skippedOutpoints ?st1 @
            map toStringOutpoint (filter (\<lambda>raw. map_of m (toStringOutpoint raw) \<noteq> None) rest)"
      and di: "dispatched st' = (dispatched ?st1 @ [AddUtxo accountID u']) @ map (AddUtxo accountID) us"
      and ks: "map toStringOutpoint us = map toStringOutpoint
             (filter (\<lambda>raw. \<not> isBlindedUtxo lib (yieldedUtxo lib m raw)) rest)"
      by auto
    have "dispatched st' = dispatched st @ map (AddUtxo accountID) (u' # us)"
      using di d1 by simp
    moreover have "map toStringOutpoint (u' # us) = map toStringOutpoint
             (filter (\<lambda>raw. \<not> isBlindedUtxo lib (yieldedUtxo lib m raw)) (raw # rest))"
      using ks k False by simp
    moreover have "skippedOutpoints st' = skippedOutpoints st @
       map toStringOutpoint (filter (\<lambda>raw. map_of m (toStringOutpoint raw) \<noteq> None) (raw # rest))"
      using sk by simp
    ultimately show ?thesis by blast
  qed
qed

lemma deleteLoop_result:
  "skippedOutpoints (deleteLoop ops st) = skippedOutpoints st \<and>
   dispatched (deleteLoop ops st) =
     dispatched st @
       map (\<lambda>p. DeleteUtxo (txid p) (vout p))
         (filter (\<lambda>p. toStringOutpoint p \<notin> set (skippedOutpoints st)) ops)"
  by (induction ops arbitrary: st) simp_all

lemma thunk_result:
  assumes a: "isAuthenticated state" and c: "streamCompletes lib accountID fetched state"
  shows "\<exists>us. makeUtxosUpdaterThunk lib accountID fetched state =
           map (AddUtxo accountID) us @
           map (\<lambda>u. DeleteUtxo (txid u) (vout u))
             (filter (\<lambda>u. toStringOutpoint u \<notin>
                          toStringOutpoint `
                            {raw \<in> set fetched. map_of (utxosMap state) (toStringOutpoint raw) \<noteq> None})
                     (map snd (utxosMap state))) \<and>
           map toStringOutpoint us =
             map toStringOutpoint
               (filter (\<lambda>raw. \<not> isBlindedUtxo lib (yieldedUtxo lib (utxosMap state) raw)) fetched)"
proof -
  let ?init = "\<lparr>skippedOutpoints = [], dispatched = []\<rparr>"
  from c obtain st' where loop: "updaterLoop lib accountID (utxosMap state) fetched ?init = Inr st'"
    by (auto simp add: streamCompletes_def split: sum.splits)
  from updaterLoop_result [OF loop] obtain us where
    sk: "skippedOutpoints st' = map toStringOutpoint
           (filter (\<lambda>raw. map_of (utxosMap state) (toStringOutpoint raw) \<noteq> None) fetched)"
    and di: "dispatched st' = map (AddUtxo accountID) us"
    and ks: "map toStringOutpoint us = map toStringOutpoint
               (filter (\<lambda>raw. \<not> isBlindedUtxo lib (yieldedUtxo lib (utxosMap state) raw)) fetched)"
    by auto
  have sks: "set (skippedOutpoints st') = toStringOutpoint `
       {raw \<in> set fetched. map_of (utxosMap state) (toStringOutpoint raw) \<noteq> None}"
    unfolding sk by auto
  have "makeUtxosUpdaterThunk lib accountID fetched state =
          dispatched (deleteLoop (map (\<lambda>u. \<lparr>txid = txid u, vout = vout u\<rparr>)
                                     (map snd (utxosMap state))) st')"
    using a loop by (simp add: makeUtxosUpdaterThunk_def Let_def)
  also have "\<dots> = map (AddUtxo accountID) us @
           map (\<lambda>u. DeleteUtxo (txid u) (vout u))
             (filter (\<lambda>u. toStringOutpoint u \<notin> set (skippedOutpoints st'))
                     (map snd (utxosMap state)))"
    by (simp add: deleteLoop_result di filter_map comp_def toStringOutpoint_fields)
  finally show ?thesis using ks unfolding sks by blast
qed

lemma keyed_lookup:
  "keyedByOutpoint m \<Longrightarrow> (k, u) \<in> set m \<Longrightarrow> k = toStringOutpoint u \<and> map_of m k \<noteq> None"
proof -
  assume km: "keyedByOutpoint m" and mem: "(k, u) \<in> set m"
  from km mem have "k = toStringOutpoint u"
    by (auto simp add: keyedByOutpoint_def list_all_iff)
  moreover from mem have "k \<in> fst ` set m" by force
  then have "map_of m k \<noteq> None" by (simp add: map_of_eq_None_iff)
  ultimately show ?thesis by simp
qed

lemma map_of_defined_keyed:
  "keyedByOutpoint m \<Longrightarrow> map_of m k \<noteq> None \<Longrightarrow> \<exists>u. (k, u) \<in> set m \<and> k = toStringOutpoint u"
proof -
  assume km: "keyedByOutpoint m" and "map_of m k \<noteq> None"
  then obtain u where "map_of m k = Some u" by auto
  then have "(k, u) \<in> set m" by (rule map_of_SomeD)
  with keyed_lookup [OF km this] show ?thesis by blast
qed




lemma keys_after_adds:
  "fst ` set (foldl applyUtxoAction m (map (AddUtxo a) us)) =
     fst ` set m \<union> toStringOutpoint ` set us"
  by (induction us arbitrary: m) (auto simp add: dom_update)

lemma keys_after_deletes:
  "fst ` set (foldl applyUtxoAction m (map (\<lambda>u. DeleteUtxo (txid u) (vout u)) vs)) =
     fst ` set m - toStringOutpoint ` set vs"
proof (induction vs arbitrary: m)
  case Nil
  show ?case by simp
next
  case (Cons v vs)
  have "fst ` set (AList.delete (toStringOutpoint v) m) = fst ` set m - {toStringOutpoint v}"
    using delete_keys [of "toStringOutpoint v" m]
    by (metis list.set_map set_removeAll)
  with Cons.IH [of "AList.delete (toStringOutpoint v) m"] show ?case
    by (auto simp add: toStringOutpoint_fields)
qed

lemma keyed_values:
  "keyedByOutpoint m \<Longrightarrow> toStringOutpoint ` set (map snd m) = fst ` set m"
  by (induction m) (auto simp add: keyedByOutpoint_def)



text \<open>
  C1, as the code has it. Under the same conditions, the outpoint keys tracked after the
  dispatched actions are the keys the previous set shares with the fetched outputs,
  together with the keys of the fetched outputs that the stream yields unblinded. A fetched
  output that was not tracked before and is still blinded after the attempt to unblind it
  is not added: the loop dispatches \<^verbatim>\<open>addUtxo\<close> only under \<^verbatim>\<open>!isBlindedUtxo(utxo)\<close>.
\<close>

theorem reconciled_keys:
  assumes a: "isAuthenticated state" and km: "keyedByOutpoint (utxosMap state)"
    and c: "streamCompletes lib accountID fetched state"
  shows "keysAfter (utxosMap state) (makeUtxosUpdaterThunk lib accountID fetched state) =
           (fst ` set (utxosMap state) \<inter> toStringOutpoint ` set fetched) \<union>
           toStringOutpoint `
             set (filter (\<lambda>raw. \<not> isBlindedUtxo lib (yieldedUtxo lib (utxosMap state) raw))
                         fetched) \<and>
         (\<forall>raw \<in> set fetched.
            toStringOutpoint raw \<notin> fst ` set (utxosMap state) \<and>
            (\<forall>r \<in> set fetched. toStringOutpoint r = toStringOutpoint raw \<longrightarrow>
                                 isBlindedUtxo lib (yieldedUtxo lib (utxosMap state) r)) \<longrightarrow>
            toStringOutpoint raw \<notin>
              keysAfter (utxosMap state) (makeUtxosUpdaterThunk lib accountID fetched state))"
proof -
  define K where "K = fst ` set (utxosMap state)"
  define F where "F = toStringOutpoint ` set fetched"
  define A where "A = toStringOutpoint `
      set (filter (\<lambda>raw. \<not> isBlindedUtxo lib (yieldedUtxo lib (utxosMap state) raw)) fetched)"
  define S where "S = toStringOutpoint `
     {raw \<in> set fetched. map_of (utxosMap state) (toStringOutpoint raw) \<noteq> None}"
  define vals where "vals = map snd (utxosMap state)"
  from thunk_result [OF a c] obtain us where
    th: "makeUtxosUpdaterThunk lib accountID fetched state =
           map (AddUtxo accountID) us @
           map (\<lambda>u. DeleteUtxo (txid u) (vout u)) (filter (\<lambda>u. toStringOutpoint u \<notin> S) vals)"
    and ks: "map toStringOutpoint us = map toStringOutpoint
               (filter (\<lambda>raw. \<not> isBlindedUtxo lib (yieldedUtxo lib (utxosMap state) raw)) fetched)"
    unfolding S_def vals_def by blast
  from ks have "set (map toStringOutpoint us) = set (map toStringOutpoint
               (filter (\<lambda>raw. \<not> isBlindedUtxo lib (yieldedUtxo lib (utxosMap state) raw)) fetched))"
    by simp
  then have A: "toStringOutpoint ` set us = A"
    unfolding A_def by simp
  have AF: "A \<subseteq> F" unfolding A_def F_def by auto
  have S_iff: "(x \<in> S) =
      (\<exists>f \<in> set fetched. toStringOutpoint f = x \<and> map_of (utxosMap state) x \<noteq> None)" for x
    unfolding S_def by auto
  have K_iff: "(x \<in> K) = (map_of (utxosMap state) x \<noteq> None)" for x
    unfolding K_def by (simp add: map_of_eq_None_iff)
  have F_iff: "(x \<in> F) = (\<exists>f \<in> set fetched. toStringOutpoint f = x)" for x
    unfolding F_def by auto
  have S: "S = K \<inter> F"
    by (rule set_eqI) (auto simp add: S_iff K_iff F_iff)
  have V: "toStringOutpoint ` set vals = K"
    unfolding vals_def K_def by (rule keyed_values [OF km])
  have D: "toStringOutpoint ` set (filter (\<lambda>u. toStringOutpoint u \<notin> S) vals) = K - S"
    using V by auto
  have "keysAfter (utxosMap state) (makeUtxosUpdaterThunk lib accountID fetched state) =
          (K \<union> A) - (K - S)"
    unfolding keysAfter_def applyDiff_def th foldl_append keys_after_deletes keys_after_adds
      A D K_def ..
  also have "\<dots> = (K \<inter> F) \<union> A"
    using S AF by blast
  finally have eq: "keysAfter (utxosMap state) (makeUtxosUpdaterThunk lib accountID fetched state) =
      (K \<inter> F) \<union> A" .
  have notAdded: "toStringOutpoint raw \<notin> (K \<inter> F) \<union> A"
    if "raw \<in> set fetched" and "toStringOutpoint raw \<notin> K"
      and "\<forall>r \<in> set fetched. toStringOutpoint r = toStringOutpoint raw \<longrightarrow>
                                 isBlindedUtxo lib (yieldedUtxo lib (utxosMap state) r)" for raw
    using that unfolding A_def by auto
  from eq notAdded show ?thesis
    unfolding K_def F_def A_def by simp
qed

theorem reconciled_keys_witness:
  "isAuthenticated (tracking [unblindedUtxo 0 100]) \<and>
   keyedByOutpoint (utxosMap (tracking [unblindedUtxo 0 100])) \<and>
   streamCompletes failingLdk ''main'' [opaqueUtxo 2, unblindedUtxo 4 50]
     (tracking [unblindedUtxo 0 100]) \<and>
   keysAfter (utxosMap (tracking [unblindedUtxo 0 100]))
     (makeUtxosUpdaterThunk failingLdk ''main'' [opaqueUtxo 2, unblindedUtxo 4 50]
        (tracking [unblindedUtxo 0 100])) = {txidA @ '':4''} \<and>
   toStringOutpoint (opaqueUtxo 2) \<notin> fst ` set (utxosMap (tracking [unblindedUtxo 0 100])) \<and>
   isBlindedUtxo failingLdk
     (yieldedUtxo failingLdk (utxosMap (tracking [unblindedUtxo 0 100])) (opaqueUtxo 2)) \<and>
   toStringOutpoint (opaqueUtxo 2) \<notin>
     keysAfter (utxosMap (tracking [unblindedUtxo 0 100]))
       (makeUtxosUpdaterThunk failingLdk ''main'' [opaqueUtxo 2, unblindedUtxo 4 50]
          (tracking [unblindedUtxo 0 100]))"
proof -
  let ?state = "tracking [unblindedUtxo 0 100]"
  let ?fetched = "[opaqueUtxo 2, unblindedUtxo 4 50]"
  have k0: "toStringOutpoint (unblindedUtxo 0 100) = txidA @ '':0''"
    and k2: "toStringOutpoint (opaqueUtxo 2) = txidA @ '':2''"
    and k4: "toStringOutpoint (unblindedUtxo 4 50) = txidA @ '':4''"
    by (simp_all add: toStringOutpoint_def unblindedUtxo_def opaqueUtxo_def
        numberToString.simps digitChar_def)
  have m: "utxosMap ?state = [(txidA @ '':0'', unblindedUtxo 0 100)]"
    by (simp add: tracking_def k0)
  have y2: "yieldedUtxo failingLdk (utxosMap ?state) (opaqueUtxo 2) = opaqueUtxo 2"
    and y4: "yieldedUtxo failingLdk (utxosMap ?state) (unblindedUtxo 4 50) = unblindedUtxo 4 50"
    by (simp_all add: yieldedUtxo_def generatorYield_def skipUtxo_def m k2 k4 Let_def
        unblindOrKeep_def failingLdk_def)
  have b2: "isBlindedUtxo failingLdk (opaqueUtxo 2)"
    and b4: "\<not> isBlindedUtxo failingLdk (unblindedUtxo 4 50)"
    by (simp_all add: failingLdk_def blindedUtxo_def opaqueUtxo_def unblindedUtxo_def)
  have a: "isAuthenticated ?state" by (simp add: tracking_def)
  have km: "keyedByOutpoint (utxosMap ?state)"
    by (simp add: m keyedByOutpoint_def k0)
  have c: "streamCompletes failingLdk ''main'' ?fetched ?state"
    unfolding streamCompletes_def updaterLoop.simps generatorYield_eq y2 y4
    by (simp add: b2 b4 m k2 k4) (simp add: utxoWithPrevout_def failingLdk_def unblindedUtxo_def)
  note r = reconciled_keys [OF a km c]
  from r
  have "keysAfter (utxosMap ?state) (makeUtxosUpdaterThunk failingLdk ''main'' ?fetched ?state) =
        (fst ` set (utxosMap ?state) \<inter> toStringOutpoint ` set ?fetched) \<union>
        toStringOutpoint `
          set (filter (\<lambda>raw. \<not> isBlindedUtxo failingLdk (yieldedUtxo failingLdk (utxosMap ?state) raw))
                      ?fetched)"
    by blast
  also have "\<dots> = {txidA @ '':4''}"
    by (simp add: y2 y4 b2 b4 k2 k4) (simp add: m)
  finally have keys: "keysAfter (utxosMap ?state)
      (makeUtxosUpdaterThunk failingLdk ''main'' ?fetched ?state) = {txidA @ '':4''}" .
  have nt: "toStringOutpoint (opaqueUtxo 2) \<notin> fst ` set (utxosMap ?state)"
    by (simp add: m k2)
  have by2: "isBlindedUtxo failingLdk (yieldedUtxo failingLdk (utxosMap ?state) (opaqueUtxo 2))"
    by (simp add: y2 b2)
  have allb: "\<forall>r \<in> set ?fetched. toStringOutpoint r = toStringOutpoint (opaqueUtxo 2) \<longrightarrow>
                 isBlindedUtxo failingLdk (yieldedUtxo failingLdk (utxosMap ?state) r)"
    by (simp add: k2 k4 y2 b2)
  have "opaqueUtxo 2 \<in> set ?fetched" by simp
  with r nt allb
  have na: "toStringOutpoint (opaqueUtxo 2) \<notin>
      keysAfter (utxosMap ?state) (makeUtxosUpdaterThunk failingLdk ''main'' ?fetched ?state)"
    by blast
  from a km c keys nt by2 na show ?thesis by blast
qed

text \<open>
  The round trip to the key set of the fetch fails: nothing is tracked, one output is
  fetched, its unblinding fails; no action is dispatched and the tracked set stays empty.
\<close>

theorem blinded_fetched_output_is_not_added:
  "makeUtxosUpdaterThunk failingLdk ''main'' [opaqueUtxo 0] (tracking []) = [] \<and>
   keysAfter (utxosMap (tracking []))
     (makeUtxosUpdaterThunk failingLdk ''main'' [opaqueUtxo 0] (tracking []))
     \<noteq> toStringOutpoint ` set [opaqueUtxo 0]"
proof -
  have t: "makeUtxosUpdaterThunk failingLdk ''main'' [opaqueUtxo 0] (tracking []) = []"
    by (simp add: makeUtxosUpdaterThunk_def tracking_def generatorYield_def skipUtxo_def
        Let_def unblindOrKeep_def failingLdk_def blindedUtxo_def opaqueUtxo_def)
  have "keysAfter (utxosMap (tracking [])) [] = {}"
    by (simp add: keysAfter_def applyDiff_def tracking_def)
  with t show ?thesis by simp
qed

section \<open>Properties of the outputs of a signed transaction\<close>




























end
